theory Spec2Isabelle
  imports Complex_Main "HOL-Library.Multiset" "HOL-Library.Log_Nat"
begin

section \<open>The accuracy evaluator of \<^verbatim>\<open>examples/evaluator.py\<close>\<close>

text \<open>
  The evaluator compares two labelings of log lines: a ground truth and the output of
  the log parser. It is written over pandas, whose objects are modelled as follows.

  \<^item> A \<^verbatim>\<open>Series\<close> is the list of its rows, each a pair of an index label (the
    \<^verbatim>\<open>LineId\<close>) and a value (the \<^verbatim>\<open>EventId\<close>). A value is optional: \<open>None\<close> is
    pandas' null (NaN, an empty CSV field).
  \<^item> A \<^verbatim>\<open>DataFrame\<close> as \<^verbatim>\<open>read_csv\<close> returns it is the list of its column names
    and the list of its rows; a row holds its cells by column name, and a cell that
    is absent from a row is null.
  \<^item> An exception is a value of \<open>error\<close>; a function that can raise returns
    \<open>error + 'a\<close>.
  \<^item> Python floats are modelled as exact rationals. \<^verbatim>\<open>scipy.special.comb\<close> is a
    library function: it is modelled by the binomial coefficient it approximates.
\<close>

datatype error = ValueError | KeyError

type_synonym ('i, 'l) series = "('i \<times> 'l option) list"

subsection \<open>The pandas operations that \<^verbatim>\<open>get_accuracy\<close> uses\<close>

text \<open>\<^verbatim>\<open>series.index\<close>.\<close>

definition index :: "('i, 'l) series \<Rightarrow> 'i list" where
  "index s = map fst s"

text \<open>The values of a series that are not null, in row order.\<close>

definition notnull_values :: "('i, 'l) series \<Rightarrow> 'l list" where
  "notnull_values s = map the (filter (\<lambda>v. v \<noteq> None) (map snd s))"

text \<open>The distinct elements of a list in the order of their first occurrence.\<close>

definition unique :: "'a list \<Rightarrow> 'a list" where
  "unique xs = rev (remdups (rev xs))"

text \<open>
  \<^verbatim>\<open>series.value_counts()\<close>: the distinct values that are not null, each with the
  number of rows that carry it, the most frequent first. pandas does not fix the order
  of two values with the same count; the model keeps them in the order of their first
  occurrence. Iterating over the result yields the counts, and its \<^verbatim>\<open>index\<close> holds the
  values.
\<close>

definition value_counts :: "('i, 'l) series \<Rightarrow> ('l \<times> nat) list" where
  "value_counts s =
     (let vs = notnull_values s
      in sort_key (\<lambda>vc. - int (snd vc)) (map (\<lambda>v. (v, count_list vs v)) (unique vs)))"

text \<open>\<^verbatim>\<open>series[series == e].index\<close>: the index labels of the rows whose value is \<open>e\<close>.\<close>

definition members :: "('i, 'l) series \<Rightarrow> 'l \<Rightarrow> 'i list" where
  "members s e = map fst (filter (\<lambda>row. snd row = Some e) s)"

text \<open>
  \<^verbatim>\<open>series[ids]\<close> and \<^verbatim>\<open>df.loc[ids]\<close> for an index \<open>ids\<close> of labels: for each label in
  turn, the rows that carry it. A label that no row has raises \<^verbatim>\<open>KeyError\<close>. The rows
  are pairs of an index label and a content: a value for a series, the cells for a
  data frame.
\<close>

definition lookup_ids :: "('i \<times> 'a) list \<Rightarrow> 'i list \<Rightarrow> error + ('i \<times> 'a) list" where
  "lookup_ids s ids =
     (if list_all (\<lambda>i. i \<in> set (map fst s)) ids
      then Inr (concat (map (\<lambda>i. filter (\<lambda>row. fst row = i) s) ids))
      else Inl KeyError)"

text \<open>\<^verbatim>\<open>scipy.special.comb(n, k)\<close>.\<close>

definition comb :: "nat \<Rightarrow> nat \<Rightarrow> rat" where
  "comb n k = of_nat (n choose k)"

subsection \<open>\<^verbatim>\<open>get_accuracy\<close>\<close>

text \<open>
  The loop that the function runs three times (lines 42-44, 48-50 and 70-72):
  \<^verbatim>\<open>for count in counts: if count > 1: acc += comb(count, 2)\<close>.
\<close>

fun count_pairs :: "nat list \<Rightarrow> rat \<Rightarrow> rat" where
  "count_pairs [] acc = acc"
| "count_pairs (cnt # counts) acc =
     count_pairs counts (if cnt > 1 then acc + comb cnt 2 else acc)"

text \<open>
  The state of the main loop (lines 52-72): \<^verbatim>\<open>accurate_pairs\<close>, \<^verbatim>\<open>accurate_events\<close> and
  the records printed so far. A printed record holds the parsed event id, the ground
  truth event ids found among its lines, and the number of these lines.
\<close>

type_synonym ('p, 'g) loop_state = "rat \<times> nat \<times> ('p \<times> 'g list \<times> nat) list"

text \<open>One iteration of the main loop, for the parsed event id \<open>parsed_eventId\<close>.\<close>

definition loop_body ::
  "('i, 'g) series \<Rightarrow> ('i, 'p) series \<Rightarrow> bool \<Rightarrow> 'p \<Rightarrow> ('p, 'g) loop_state
     \<Rightarrow> error + ('p, 'g) loop_state" where
  "loop_body series_groundtruth series_parsedlog debug parsed_eventId st =
     (case st of (accurate_pairs, accurate_events, printed) \<Rightarrow>
        let logIds = members series_parsedlog parsed_eventId
        in case lookup_ids series_groundtruth logIds of
             Inl e \<Rightarrow> Inl e
           | Inr series_gt \<Rightarrow>
               let series_gt_valuecounts = value_counts series_gt;
                   error_eventIds = (parsed_eventId, map fst series_gt_valuecounts);
                   exact =
                     (case series_gt_valuecounts of
                        [(groundtruth_eventId, n)] \<Rightarrow>
                          length logIds = length (members series_groundtruth groundtruth_eventId)
                      | _ \<Rightarrow> False);
                   accurate_events' =
                     (if exact then accurate_events + length logIds else accurate_events);
                   printed' =
                     (if \<not> exact \<and> debug
                      then printed @ [(fst error_eventIds, snd error_eventIds, length logIds)]
                      else printed)
               in Inr (count_pairs (map snd series_gt_valuecounts) accurate_pairs,
                       accurate_events', printed'))"

fun accuracy_loop ::
  "('i, 'g) series \<Rightarrow> ('i, 'p) series \<Rightarrow> bool \<Rightarrow> 'p list \<Rightarrow> ('p, 'g) loop_state
     \<Rightarrow> error + ('p, 'g) loop_state" where
  "accuracy_loop gt pl debug [] st = Inr st"
| "accuracy_loop gt pl debug (parsed_eventId # rest) st =
     (case loop_body gt pl debug parsed_eventId st of
        Inl e \<Rightarrow> Inl e
      | Inr st' \<Rightarrow> accuracy_loop gt pl debug rest st')"

text \<open>
  Lines 40-72 of \<^verbatim>\<open>get_accuracy\<close>: the counts \<^verbatim>\<open>real_pairs\<close>, \<^verbatim>\<open>parsed_pairs\<close>,
  \<^verbatim>\<open>accurate_pairs\<close> and \<^verbatim>\<open>accurate_events\<close>, and the records printed.
\<close>

definition get_counts ::
  "('i, 'g) series \<Rightarrow> ('i, 'p) series \<Rightarrow> bool
     \<Rightarrow> error + (rat \<times> rat \<times> rat \<times> nat \<times> ('p \<times> 'g list \<times> nat) list)" where
  "get_counts series_groundtruth series_parsedlog debug =
     (let series_groundtruth_valuecounts = value_counts series_groundtruth;
          real_pairs = count_pairs (map snd series_groundtruth_valuecounts) 0;
          series_parsedlog_valuecounts = value_counts series_parsedlog;
          parsed_pairs = count_pairs (map snd series_parsedlog_valuecounts) 0
      in case accuracy_loop series_groundtruth series_parsedlog debug
                (map fst series_parsedlog_valuecounts) (0, 0, []) of
           Inl e \<Rightarrow> Inl e
         | Inr (accurate_pairs, accurate_events, printed) \<Rightarrow>
             Inr (real_pairs, parsed_pairs, accurate_pairs, accurate_events, printed))"

text \<open>
  \<^verbatim>\<open>get_accuracy\<close>: the counts, then the four ratios of lines 75-78. The result is the
  tuple \<^verbatim>\<open>(precision, recall, f_measure, accuracy)\<close> that the function returns, paired
  with what it printed.
\<close>

definition get_accuracy ::
  "('i, 'g) series \<Rightarrow> ('i, 'p) series \<Rightarrow> bool
     \<Rightarrow> error + ((rat \<times> rat \<times> rat \<times> rat) \<times> ('p \<times> 'g list \<times> nat) list)" where
  "get_accuracy series_groundtruth series_parsedlog debug =
     (case get_counts series_groundtruth series_parsedlog debug of
        Inl e \<Rightarrow> Inl e
      | Inr (real_pairs, parsed_pairs, accurate_pairs, accurate_events, printed) \<Rightarrow>
          let precision = (if parsed_pairs \<noteq> 0 then accurate_pairs / parsed_pairs else 0);
              recall = (if real_pairs \<noteq> 0 then accurate_pairs / real_pairs else 0);
              f_measure =
                (if precision + recall \<noteq> 0
                 then 2 * precision * recall / (precision + recall) else 0);
              accuracy =
                (if length series_groundtruth \<noteq> 0
                 then of_nat accurate_events / of_nat (length series_groundtruth) else 0)
          in Inr ((precision, recall, f_measure, accuracy), printed))"

text \<open>The four scores of a result, without what was printed.\<close>

definition scores ::
  "error + ((rat \<times> rat \<times> rat \<times> rat) \<times> 'a) \<Rightarrow> error + (rat \<times> rat \<times> rat \<times> rat)" where
  "scores r = map_sum id fst r"

subsection \<open>\<^verbatim>\<open>evaluate\<close>\<close>

text \<open>
  A data frame as \<^verbatim>\<open>read_csv\<close> returns it. Reading the files is outside the model: the
  two frames are the inputs of \<open>evaluate\<close>.
\<close>

record 'c dataframe =
  columns :: "string list"
  rows :: "(string \<times> 'c) list list"

text \<open>A data frame after \<^verbatim>\<open>set_index\<close>: each row has its index label.\<close>

record 'c indexed_frame =
  frame_columns :: "string list"
  frame_rows :: "('c option \<times> (string \<times> 'c) list) list"

text \<open>\<^verbatim>\<open>df.set_index(name, inplace=True)\<close>, for a column that the frame has.\<close>

definition set_index :: "string \<Rightarrow> 'c dataframe \<Rightarrow> 'c indexed_frame" where
  "set_index name df =
     \<lparr>frame_columns = removeAll name (columns df),
      frame_rows = map (\<lambda>r. (map_of r name, r)) (rows df)\<rparr>"

text \<open>\<^verbatim>\<open>df[name]\<close>: the column as a series; \<^verbatim>\<open>KeyError\<close> when there is no such column.\<close>

definition frame_column :: "'c indexed_frame \<Rightarrow> string \<Rightarrow> error + ('c option, 'c) series" where
  "frame_column f name =
     (if name \<in> set (frame_columns f)
      then Inr (map (\<lambda>row. (fst row, map_of (snd row) name)) (frame_rows f))
      else Inl KeyError)"

text \<open>\<^verbatim>\<open>df[mask]\<close> for a boolean mask with one entry per row.\<close>

definition select_rows :: "bool list \<Rightarrow> 'c indexed_frame \<Rightarrow> 'c indexed_frame" where
  "select_rows keep f = f\<lparr>frame_rows := map snd (filter fst (zip keep (frame_rows f)))\<rparr>"

text \<open>
  \<^verbatim>\<open>index.intersection(other)\<close>: the labels of the index that the other index has too,
  each once, in the order of the index.
\<close>

definition intersection :: "'i list \<Rightarrow> 'i list \<Rightarrow> 'i list" where
  "intersection idx other = unique (filter (\<lambda>i. i \<in> set other) idx)"

text \<open>\<^verbatim>\<open>df.loc[ids]\<close>.\<close>

definition loc :: "'c indexed_frame \<Rightarrow> 'c option list \<Rightarrow> error + 'c indexed_frame" where
  "loc f ids =
     (case lookup_ids (frame_rows f) ids of
        Inl e \<Rightarrow> Inl e
      | Inr selected \<Rightarrow> Inr (f\<lparr>frame_rows := selected\<rparr>))"

text \<open>
  Lines 97-104 of \<^verbatim>\<open>evaluate\<close>: the two series that are passed to \<^verbatim>\<open>get_accuracy\<close>. The
  rows of the ground truth with a null event id are dropped, and both frames are
  restricted to the line ids they share.
\<close>

definition align ::
  "'c indexed_frame \<Rightarrow> 'c indexed_frame
     \<Rightarrow> error + (('c option, 'c) series \<times> ('c option, 'c) series)" where
  "align df_groundtruth df_parsedlog =
     (case frame_column df_groundtruth ''EventId'' of
        Inl e \<Rightarrow> Inl e
      | Inr event_ids \<Rightarrow>
          let df_groundtruth1 =
                select_rows (map (\<lambda>row. snd row \<noteq> None) event_ids) df_groundtruth;
              common_lineids =
                intersection (map fst (frame_rows df_groundtruth1))
                  (map fst (frame_rows df_parsedlog))
          in case loc df_groundtruth1 common_lineids of
               Inl e \<Rightarrow> Inl e
             | Inr df_groundtruth2 \<Rightarrow>
                 (case loc df_parsedlog common_lineids of
                    Inl e \<Rightarrow> Inl e
                  | Inr df_parsedlog2 \<Rightarrow>
                      (case frame_column df_groundtruth2 ''EventId'' of
                         Inl e \<Rightarrow> Inl e
                       | Inr series_groundtruth \<Rightarrow>
                           (case frame_column df_parsedlog2 ''EventId'' of
                              Inl e \<Rightarrow> Inl e
                            | Inr series_parsedlog \<Rightarrow>
                                Inr (series_groundtruth, series_parsedlog)))))"

text \<open>
  \<^verbatim>\<open>evaluate\<close>, from the two frames read. It returns \<^verbatim>\<open>(f_measure, accuracy)\<close>; the line
  it prints is not modelled.
\<close>

definition evaluate :: "'c dataframe \<Rightarrow> 'c dataframe \<Rightarrow> error + (rat \<times> rat)" where
  "evaluate groundtruth parsedresult =
     (if ''LineId'' \<notin> set (columns groundtruth) \<or> ''LineId'' \<notin> set (columns parsedresult)
      then Inl ValueError
      else
        case align (set_index ''LineId'' groundtruth) (set_index ''LineId'' parsedresult) of
          Inl e \<Rightarrow> Inl e
        | Inr (series_groundtruth, series_parsedlog) \<Rightarrow>
            (case get_accuracy series_groundtruth series_parsedlog False of
               Inl e \<Rightarrow> Inl e
             | Inr ((precision, recall, f_measure, accuracy), printed) \<Rightarrow>
                 Inr (f_measure, accuracy)))"

subsection \<open>What the loops compute\<close>

text \<open>
  The quantities below name what one run of a loop adds up, so that the results of
  \<open>get_counts\<close> can be stated without the accumulators.
\<close>

text \<open>The labels of a series: the values of \<^verbatim>\<open>value_counts().index\<close>, as a set.\<close>

definition labels :: "('i, 'l) series \<Rightarrow> 'l set" where
  "labels s = set (notnull_values s)"

text \<open>The pairs of rows of a series that carry the same label.\<close>

definition class_pairs :: "('i, 'l) series \<Rightarrow> nat" where
  "class_pairs s = (\<Sum>v\<in>labels s. length (members s v) choose 2)"

text \<open>The rows of the ground truth that line 56 selects for a parsed event id.\<close>

definition sub_series :: "('i, 'g) series \<Rightarrow> ('i, 'p) series \<Rightarrow> 'p \<Rightarrow> ('i, 'g) series" where
  "sub_series gt pl p = concat (map (\<lambda>i. filter (\<lambda>row. fst row = i) gt) (members pl p))"

text \<open>What lines 70-72 add to \<^verbatim>\<open>accurate_pairs\<close> for a parsed event id.\<close>

definition pairs_in :: "('i, 'g) series \<Rightarrow> ('i, 'p) series \<Rightarrow> 'p \<Rightarrow> nat" where
  "pairs_in gt pl p = sum_list (map (\<lambda>c. c choose 2) (map snd (value_counts (sub_series gt pl p))))"

text \<open>The test of lines 60-62 for a parsed event id.\<close>

definition exact_in :: "('i, 'g) series \<Rightarrow> ('i, 'p) series \<Rightarrow> 'p \<Rightarrow> bool" where
  "exact_in gt pl p =
     (case value_counts (sub_series gt pl p) of
        [(g, n)] \<Rightarrow> length (members pl p) = length (members gt g)
      | _ \<Rightarrow> False)"

definition joint_pairs :: "('i, 'g) series \<Rightarrow> ('i, 'p) series \<Rightarrow> nat" where
  "joint_pairs gt pl = (\<Sum>p\<in>labels pl. pairs_in gt pl p)"

definition exact_events :: "('i, 'g) series \<Rightarrow> ('i, 'p) series \<Rightarrow> nat" where
  "exact_events gt pl = (\<Sum>p\<in>labels pl. if exact_in gt pl p then length (members pl p) else 0)"

text \<open>
  Two series label the same lines when each has one row per line id and the line ids
  of the two are the same set.
\<close>

definition same_lines :: "('i, 'g) series \<Rightarrow> ('i, 'p) series \<Rightarrow> bool" where
  "same_lines gt pl \<longleftrightarrow>
     distinct (index gt) \<and> distinct (index pl) \<and> set (index gt) = set (index pl)"

text \<open>
  Aligned labelings, as \<^verbatim>\<open>evaluate\<close> passes them to \<^verbatim>\<open>get_accuracy\<close>: the same lines, and
  no null label in the ground truth.
\<close>

definition aligned :: "('i, 'g) series \<Rightarrow> ('i, 'p) series \<Rightarrow> bool" where
  "aligned gt pl \<longleftrightarrow> same_lines gt pl \<and> list_all (\<lambda>row. snd row \<noteq> None) gt"

text \<open>The numbers of a loop state or of a result, without what was printed.\<close>

definition numeric :: "error + ('p, 'g) loop_state \<Rightarrow> error + (rat \<times> nat)" where
  "numeric r = map_sum id (\<lambda>st. (fst st, fst (snd st))) r"

definition counts_of ::
  "error + (rat \<times> rat \<times> rat \<times> nat \<times> 'a) \<Rightarrow> error + (rat \<times> rat \<times> rat \<times> nat)" where
  "counts_of r = map_sum id (\<lambda>(rp, pp, ap, ae, out). (rp, pp, ap, ae)) r"

subsection \<open>The exact match of the specification\<close>

text \<open>
  Section 4.3 of the specification, in its words: a predicted class \<open>P\<close> is an exact
  match of a ground truth class \<open>G\<close> when all members of \<open>P\<close> map to the single ground
  truth label \<open>G\<close>, and the number of members of \<open>P\<close> equals the total number of lines
  carrying label \<open>G\<close>.
\<close>

definition exact_match :: "('i, 'g) series \<Rightarrow> ('i, 'p) series \<Rightarrow> 'p \<Rightarrow> bool" where
  "exact_match gt pl P =
     list_ex
       (\<lambda>G. list_all (\<lambda>i. map_of gt i = Some (Some G)) (members pl P) \<and>
            length (members pl P) = length (members gt G))
       (notnull_values gt)"

text \<open>The member counts of the predicted classes that are exact matches, added up.\<close>

definition exact_match_events :: "('i, 'g) series \<Rightarrow> ('i, 'p) series \<Rightarrow> nat" where
  "exact_match_events gt pl =
     sum_list (map (\<lambda>P. if exact_match gt pl P then length (members pl P) else 0)
       (unique (notnull_values pl)))"

subsection \<open>Renaming labels\<close>


subsection \<open>What the alignment computes\<close>

text \<open>The \<^verbatim>\<open>EventId\<close> column of a frame that has this column.\<close>

definition event_ids :: "'c indexed_frame \<Rightarrow> ('c option, 'c) series" where
  "event_ids f = map (\<lambda>row. (fst row, map_of (snd row) ''EventId'')) (frame_rows f)"

text \<open>The rows of a series with a label that is not null.\<close>

definition dropnull :: "('i, 'l) series \<Rightarrow> ('i, 'l) series" where
  "dropnull s = filter (\<lambda>row. snd row \<noteq> None) s"

text \<open>The rows of a series for the index labels \<open>ids\<close>, in the order of \<open>ids\<close>.\<close>

definition select_ids :: "('i \<times> 'a) list \<Rightarrow> 'i list \<Rightarrow> ('i \<times> 'a) list" where
  "select_ids s ids = concat (map (\<lambda>i. filter (\<lambda>row. fst row = i) s) ids)"


subsection \<open>Example frames\<close>

text \<open>
  A ground truth of four lines, the third without event id, and three parsed results:
  one that shares the lines 1, 2 and 4 with it and has no event id for line 4, one
  without the \<^verbatim>\<open>EventId\<close> column, and one about other lines.
\<close>

definition example_groundtruth :: "int dataframe" where
  "example_groundtruth =
     \<lparr>columns = [''LineId'', ''Content'', ''EventId''],
      rows = [[(''LineId'', 1), (''EventId'', 7)], [(''LineId'', 2), (''EventId'', 7)],
              [(''LineId'', 3)], [(''LineId'', 4), (''EventId'', 8)]]\<rparr>"

definition example_parsed :: "int dataframe" where
  "example_parsed =
     \<lparr>columns = [''LineId'', ''EventId''],
      rows = [[(''LineId'', 2), (''EventId'', 1)], [(''LineId'', 1), (''EventId'', 1)],
              [(''LineId'', 4)], [(''LineId'', 9), (''EventId'', 1)]]\<rparr>"

definition example_unlabelled :: "int dataframe" where
  "example_unlabelled =
     \<lparr>columns = [''LineId'', ''Content''],
      rows = [[(''LineId'', 1), (''Content'', 5)], [(''LineId'', 2), (''Content'', 6)]]\<rparr>"

definition example_elsewhere :: "int dataframe" where
  "example_elsewhere =
     \<lparr>columns = [''LineId'', ''EventId''],
      rows = [[(''LineId'', 10), (''EventId'', 1)], [(''LineId'', 11), (''EventId'', 1)]]\<rparr>"

definition example_headless :: "int dataframe" where
  "example_headless =
     \<lparr>columns = [''Content'', ''EventId''],
      rows = [[(''Content'', 5), (''EventId'', 1)]]\<rparr>"

section \<open>The evaluator in float64 arithmetic\<close>

text \<open>
  The definitions of the first section compute the pair counts and the ratios in exact
  arithmetic. The code computes them in float64: \<^verbatim>\<open>scipy.special.comb\<close> is called without
  \<^verbatim>\<open>exact=True\<close> and returns a float, so the three accumulators of \<^verbatim>\<open>get_accuracy\<close> are
  floats, and so are the four ratios. The definitions of this section follow the code
  operation by operation, rounding after each one. Everything that is not arithmetic
  (the pandas operations, the loop structure, the exact-match test, the integer
  \<^verbatim>\<open>accurate_events\<close>) is shared with the first section.
\<close>

subsection \<open>Rounding to float64\<close>

text \<open>
  A float64 is modelled by the rational number it stands for, and an operation by the
  exact operation followed by \<open>fl\<close>, the rounding to the nearest number with a 53-bit
  significand, ties to the even significand. The exponent is not bounded: overflow and
  subnormal numbers are not modelled. For series of fewer than \<open>2^63\<close> rows every value
  that \<^verbatim>\<open>get_accuracy\<close> computes is 0 or lies between \<open>2^-126\<close> and \<open>2^126\<close>, far inside the
  normal range of float64.
\<close>

text \<open>The nearest integer, the even one of two that are equally near.\<close>

definition round_even :: "rat \<Rightarrow> int" where
  "round_even y =
     (let n = \<lfloor>y\<rfloor>; d = y - of_int n
      in if d < 1 / 2 then n else if 1 / 2 < d then n + 1 else if even n then n else n + 1)"

text \<open>For a positive \<open>x\<close>, the integer \<open>e\<close> with \<open>2^e \<le> x < 2^(e+1)\<close>.\<close>

definition exponent :: "rat \<Rightarrow> int" where
  "exponent x =
     (let k = bitlen (fst (quotient_of x)) - bitlen (snd (quotient_of x))
      in if 2 powi k \<le> x then k else k - 1)"

definition fl :: "rat \<Rightarrow> rat" where
  "fl x =
     (if x = 0 then 0
      else let e = exponent \<bar>x\<bar> - 52
           in sgn x * (of_int (round_even (\<bar>x\<bar> / 2 powi e)) * 2 powi e))"

subsection \<open>\<^verbatim>\<open>get_accuracy\<close> in float64\<close>

text \<open>
  \<^verbatim>\<open>scipy.special.comb(n, k)\<close> with its default \<^verbatim>\<open>exact=False\<close>. For \<open>k = 2\<close> scipy multiplies
  \<open>n - 1\<close> by \<open>n\<close> in floating point and halves the product, which gives the float64
  nearest to the binomial coefficient.
\<close>

definition comb_f64 :: "nat \<Rightarrow> nat \<Rightarrow> rat" where
  "comb_f64 n k = fl (of_nat (n choose k))"

text \<open>The loop \<^verbatim>\<open>for count in counts: if count > 1: acc += comb(count, 2)\<close>.\<close>

fun count_pairs_f64 :: "nat list \<Rightarrow> rat \<Rightarrow> rat" where
  "count_pairs_f64 [] acc = acc"
| "count_pairs_f64 (cnt # counts) acc =
     count_pairs_f64 counts (if cnt > 1 then fl (acc + comb_f64 cnt 2) else acc)"

text \<open>One iteration of the main loop (lines 54-72).\<close>

definition loop_body_f64 ::
  "('i, 'g) series \<Rightarrow> ('i, 'p) series \<Rightarrow> bool \<Rightarrow> 'p \<Rightarrow> ('p, 'g) loop_state
     \<Rightarrow> error + ('p, 'g) loop_state" where
  "loop_body_f64 series_groundtruth series_parsedlog debug parsed_eventId st =
     (case st of (accurate_pairs, accurate_events, printed) \<Rightarrow>
        let logIds = members series_parsedlog parsed_eventId
        in case lookup_ids series_groundtruth logIds of
             Inl e \<Rightarrow> Inl e
           | Inr series_gt \<Rightarrow>
               let series_gt_valuecounts = value_counts series_gt;
                   error_eventIds = (parsed_eventId, map fst series_gt_valuecounts);
                   exact =
                     (case series_gt_valuecounts of
                        [(groundtruth_eventId, n)] \<Rightarrow>
                          length logIds = length (members series_groundtruth groundtruth_eventId)
                      | _ \<Rightarrow> False);
                   accurate_events' =
                     (if exact then accurate_events + length logIds else accurate_events);
                   printed' =
                     (if \<not> exact \<and> debug
                      then printed @ [(fst error_eventIds, snd error_eventIds, length logIds)]
                      else printed)
               in Inr (count_pairs_f64 (map snd series_gt_valuecounts) accurate_pairs,
                       accurate_events', printed'))"

fun accuracy_loop_f64 ::
  "('i, 'g) series \<Rightarrow> ('i, 'p) series \<Rightarrow> bool \<Rightarrow> 'p list \<Rightarrow> ('p, 'g) loop_state
     \<Rightarrow> error + ('p, 'g) loop_state" where
  "accuracy_loop_f64 gt pl debug [] st = Inr st"
| "accuracy_loop_f64 gt pl debug (parsed_eventId # rest) st =
     (case loop_body_f64 gt pl debug parsed_eventId st of
        Inl e \<Rightarrow> Inl e
      | Inr st' \<Rightarrow> accuracy_loop_f64 gt pl debug rest st')"

text \<open>Lines 40-72: the counts.\<close>

definition get_counts_f64 ::
  "('i, 'g) series \<Rightarrow> ('i, 'p) series \<Rightarrow> bool
     \<Rightarrow> error + (rat \<times> rat \<times> rat \<times> nat \<times> ('p \<times> 'g list \<times> nat) list)" where
  "get_counts_f64 series_groundtruth series_parsedlog debug =
     (let series_groundtruth_valuecounts = value_counts series_groundtruth;
          real_pairs = count_pairs_f64 (map snd series_groundtruth_valuecounts) 0;
          series_parsedlog_valuecounts = value_counts series_parsedlog;
          parsed_pairs = count_pairs_f64 (map snd series_parsedlog_valuecounts) 0
      in case accuracy_loop_f64 series_groundtruth series_parsedlog debug
                (map fst series_parsedlog_valuecounts) (0, 0, []) of
           Inl e \<Rightarrow> Inl e
         | Inr (accurate_pairs, accurate_events, printed) \<Rightarrow>
             Inr (real_pairs, parsed_pairs, accurate_pairs, accurate_events, printed))"

text \<open>
  \<^verbatim>\<open>get_accuracy\<close>. Line 77 is evaluated from the left:
  \<^verbatim>\<open>((2.0 * precision) * recall) / (precision + recall)\<close>, and its guard tests the rounded
  sum. In line 78 the two integers are converted to floats before the division.
\<close>

definition get_accuracy_f64 ::
  "('i, 'g) series \<Rightarrow> ('i, 'p) series \<Rightarrow> bool
     \<Rightarrow> error + ((rat \<times> rat \<times> rat \<times> rat) \<times> ('p \<times> 'g list \<times> nat) list)" where
  "get_accuracy_f64 series_groundtruth series_parsedlog debug =
     (case get_counts_f64 series_groundtruth series_parsedlog debug of
        Inl e \<Rightarrow> Inl e
      | Inr (real_pairs, parsed_pairs, accurate_pairs, accurate_events, printed) \<Rightarrow>
          let precision =
                (if parsed_pairs \<noteq> 0 then fl (accurate_pairs / parsed_pairs) else 0);
              recall = (if real_pairs \<noteq> 0 then fl (accurate_pairs / real_pairs) else 0);
              f_measure =
                (if fl (precision + recall) \<noteq> 0
                 then fl (fl (fl (2 * precision) * recall) / fl (precision + recall)) else 0);
              accuracy =
                (if length series_groundtruth \<noteq> 0
                 then fl (fl (of_nat accurate_events) / fl (of_nat (length series_groundtruth)))
                 else 0)
          in Inr ((precision, recall, f_measure, accuracy), printed))"

subsection \<open>What the main loop accumulates in float64\<close>

text \<open>
  \<^verbatim>\<open>accurate_pairs\<close> after the iterations for the parsed event ids \<open>ps\<close>, in the order in
  which lines 70-72 add the terms.
\<close>

fun pairs_fold :: "('i, 'g) series \<Rightarrow> ('i, 'p) series \<Rightarrow> 'p list \<Rightarrow> rat \<Rightarrow> rat" where
  "pairs_fold gt pl [] acc = acc"
| "pairs_fold gt pl (p # ps) acc =
     pairs_fold gt pl ps (count_pairs_f64 (map snd (value_counts (sub_series gt pl p))) acc)"

text \<open>What the iterations for \<open>ps\<close> print when \<open>debug\<close> is set.\<close>

definition mismatches :: "('i, 'g) series \<Rightarrow> ('i, 'p) series \<Rightarrow> 'p list \<Rightarrow> ('p \<times> 'g list \<times> nat) list" where
  "mismatches gt pl ps =
     concat (map (\<lambda>p. if exact_in gt pl p then []
                        else [(p, map fst (value_counts (sub_series gt pl p)), length (members pl p))]) ps)"

subsection \<open>Two labelings of 189812537 lines\<close>

text \<open>The rows for the line ids from \<open>start\<close> up to \<open>stop - 1\<close>, all with the label \<open>l\<close>.\<close>

definition block :: "nat \<Rightarrow> nat \<Rightarrow> 'l \<Rightarrow> (nat, 'l) series" where
  "block start stop l = map (\<lambda>i. (i, Some l)) [start..<stop]"

text \<open>
  A ground truth with four classes, which hold the line ids below \<open>a\<close>, from \<open>a\<close> below
  \<open>b\<close>, from \<open>b\<close> below \<open>c\<close> and from \<open>c\<close> below \<open>d\<close>, and a prediction that finds the
  first class and merges the other three.
\<close>

definition four_classes :: "nat \<Rightarrow> nat \<Rightarrow> nat \<Rightarrow> nat \<Rightarrow> (nat, nat) series" where
  "four_classes a b c d = block 0 a 0 @ block a b 1 @ block b c 2 @ block c d 3"

definition two_classes :: "nat \<Rightarrow> nat \<Rightarrow> (nat, nat) series" where
  "two_classes a d = block 0 a 0 @ block a d 1"

text \<open>The classes of the ground truth have 94906267, 94906266, 2 and 2 lines.\<close>

definition large_groundtruth :: "(nat, nat) series" where
  "large_groundtruth = four_classes 94906267 189812533 189812535 189812537"

definition large_parsed :: "(nat, nat) series" where
  "large_parsed = two_classes 94906267 189812537"

section \<open>Properties\<close>

subsection \<open>The loops as sums\<close>

lemma choose2_small: "\<not> 1 < c \<Longrightarrow> c choose 2 = 0"
  by (simp add: binomial_eq_0)

lemma count_pairs_sum:
  "count_pairs cs acc = acc + of_nat (sum_list (map (\<lambda>c. c choose 2) cs))"
  by (induction cs arbitrary: acc) (simp_all add: comb_def choose2_small)

lemma sum_list_sort_key:
  fixes f :: "'a \<Rightarrow> 'b::comm_monoid_add"
  shows "sum_list (map f (sort_key k xs)) = sum_list (map f xs)"
proof -
  have "mset (map f (sort_key k xs)) = mset (map f xs)" by simp
  then show ?thesis by (metis sum_mset_sum_list)
qed

lemma distinct_unique: "distinct (unique xs)" and set_unique: "set (unique xs) = set xs"
  by (simp_all add: unique_def)

lemma count_notnull_members: "count_list (notnull_values s) v = length (members s v)"
  by (induction s) (auto simp: notnull_values_def members_def)

lemma set_value_counts:
  "set (value_counts s) = (\<lambda>v. (v, length (members s v))) ` labels s"
  by (simp add: value_counts_def Let_def set_unique labels_def count_notnull_members)

lemma distinct_value_counts: "distinct (map fst (value_counts s))"
proof -
  have "mset (map fst (value_counts s)) = mset (unique (notnull_values s))"
    by (simp add: value_counts_def Let_def multiset.map_comp comp_def)
  then show ?thesis using distinct_unique by (metis mset_eq_imp_distinct_iff)
qed

lemma set_fst_value_counts: "set (map fst (value_counts s)) = labels s"
  by (simp add: value_counts_def Let_def comp_def set_unique labels_def image_image)

lemma sum_list_value_counts:
  fixes f :: "'l \<Rightarrow> nat \<Rightarrow> 'b::comm_monoid_add"
  shows "sum_list (map (\<lambda>vc. f (fst vc) (snd vc)) (value_counts s)) = (\<Sum>v\<in>labels s. f v (length (members s v)))"
proof -
  have "sum_list (map (\<lambda>vc. f (fst vc) (snd vc)) (value_counts s))
      = sum_list (map (\<lambda>v. f v (length (members s v))) (unique (notnull_values s)))"
    by (simp add: value_counts_def Let_def sum_list_sort_key comp_def count_notnull_members)
  also have "\<dots> = (\<Sum>v\<in>set (unique (notnull_values s)). f v (length (members s v)))"
    by (rule sum.distinct_set_conv_list [symmetric]) (rule distinct_unique)
  finally show ?thesis by (simp add: set_unique labels_def)
qed

lemma class_pairs_value_counts:
  "count_pairs (map snd (value_counts s)) 0 = of_nat (class_pairs s)"
  using sum_list_value_counts [of "\<lambda>v c. c choose 2" s]
  by (simp add: count_pairs_sum class_pairs_def comp_def)

lemma sum_list_fst_value_counts:
  fixes f :: "'l \<Rightarrow> 'b::comm_monoid_add"
  shows "sum_list (map f (map fst (value_counts s))) = (\<Sum>v\<in>labels s. f v)"
  using sum_list_value_counts [of "\<lambda>v c. f v" s] by (simp add: comp_def)

lemma members_subset_index: "set (members s v) \<subseteq> set (index s)"
  by (auto simp: members_def index_def)

lemma lookup_ids_ok:
  "set ids \<subseteq> set (index gt) \<Longrightarrow>
   lookup_ids gt ids = Inr (concat (map (\<lambda>i. filter (\<lambda>row. fst row = i) gt) ids))"
  by (auto simp: lookup_ids_def list_all_iff index_def)

lemma loop_body_ok:
  assumes "set (members pl p) \<subseteq> set (index gt)"
  shows "loop_body gt pl d p (ap, ae, out) =
     Inr (ap + of_nat (pairs_in gt pl p),
          ae + (if exact_in gt pl p then length (members pl p) else 0),
          out @ (if \<not> exact_in gt pl p \<and> d
                 then [(p, map fst (value_counts (sub_series gt pl p)), length (members pl p))]
                 else []))"
  using lookup_ids_ok [OF assms]
  by (simp add: loop_body_def Let_def count_pairs_sum pairs_in_def exact_in_def sub_series_def)

lemma accuracy_loop_ok:
  assumes "\<forall>p\<in>set ps. set (members pl p) \<subseteq> set (index gt)"
  shows "\<exists>out'. accuracy_loop gt pl d ps (ap, ae, out) =
     Inr (ap + of_nat (sum_list (map (pairs_in gt pl) ps)),
          ae + sum_list (map (\<lambda>p. if exact_in gt pl p then length (members pl p) else 0) ps),
          out')"
  using assms
proof (induction ps arbitrary: ap ae out)
  case Nil
  then show ?case by simp
next
  case (Cons p ps)
  have sub: "set (members pl p) \<subseteq> set (index gt)" using Cons.prems by simp
  have rest: "\<forall>q\<in>set ps. set (members pl q) \<subseteq> set (index gt)" using Cons.prems by simp
  define ap1 where "ap1 = ap + of_nat (pairs_in gt pl p)"
  define ae1 where "ae1 = ae + (if exact_in gt pl p then length (members pl p) else 0)"
  define out1 where "out1 = out @ (if \<not> exact_in gt pl p \<and> d
                 then [(p, map fst (value_counts (sub_series gt pl p)), length (members pl p))]
                 else [])"
  have body: "loop_body gt pl d p (ap, ae, out) = Inr (ap1, ae1, out1)"
    unfolding ap1_def ae1_def out1_def by (rule loop_body_ok [OF sub])
  from Cons.IH [OF rest, of ap1 ae1 out1] obtain out' where
    "accuracy_loop gt pl d ps (ap1, ae1, out1) =
       Inr (ap1 + of_nat (sum_list (map (pairs_in gt pl) ps)),
            ae1 + sum_list (map (\<lambda>p. if exact_in gt pl p then length (members pl p) else 0) ps),
            out')" by blast
  then have "accuracy_loop gt pl d (p # ps) (ap, ae, out) =
     Inr (ap + of_nat (sum_list (map (pairs_in gt pl) (p # ps))),
          ae + sum_list (map (\<lambda>p. if exact_in gt pl p then length (members pl p) else 0) (p # ps)),
          out')"
    by (simp add: body ap1_def ae1_def add.assoc)
  then show ?case by blast
qed

lemma get_counts_ok:
  assumes "set (index pl) \<subseteq> set (index gt)"
  shows "\<exists>out. get_counts gt pl d =
     Inr (of_nat (class_pairs gt), of_nat (class_pairs pl), of_nat (joint_pairs gt pl),
          exact_events gt pl, out)"
proof -
  have "\<forall>p\<in>set (map fst (value_counts pl)). set (members pl p) \<subseteq> set (index gt)"
    using assms members_subset_index by fast
  from accuracy_loop_ok [OF this, of d 0 0 "[]"]
  obtain out' where "accuracy_loop gt pl d (map fst (value_counts pl)) (0, 0, []) =
     Inr (of_nat (sum_list (map (pairs_in gt pl) (map fst (value_counts pl)))),
          sum_list (map (\<lambda>p. if exact_in gt pl p then length (members pl p) else 0) (map fst (value_counts pl))),
          out')"
    by auto
  moreover have "sum_list (map (pairs_in gt pl) (map fst (value_counts pl))) = joint_pairs gt pl"
    unfolding joint_pairs_def by (rule sum_list_fst_value_counts)
  moreover have "sum_list (map (\<lambda>p. if exact_in gt pl p then length (members pl p) else 0)
      (map fst (value_counts pl))) = exact_events gt pl"
    unfolding exact_events_def by (rule sum_list_fst_value_counts)
  ultimately have "accuracy_loop gt pl d (map fst (value_counts pl)) (0, 0, []) =
     Inr (of_nat (joint_pairs gt pl), exact_events gt pl, out')" by simp
  then show ?thesis
    by (simp add: get_counts_def Let_def class_pairs_value_counts)
qed

subsection \<open>Scenario B\<close>

text \<open>
  Claim C5. On the line ids 1 to 5 with the ground truth labels X, X, X, Y, Y and the
  parsed labels A, A, B, B, B, \<open>get_accuracy\<close> counts \<open>real_pairs = 4\<close>,
  \<open>parsed_pairs = 4\<close>, \<open>accurate_pairs = 2\<close> and \<open>accurate_events = 0\<close>, and it returns
  precision, recall and f-measure 0.5 and accuracy 0, with and without \<open>debug\<close>.
\<close>

theorem scenario_B:
  "get_counts
     [(1::int, Some ''X''), (2, Some ''X''), (3, Some ''X''), (4, Some ''Y''), (5, Some ''Y'')]
     [(1, Some ''A''), (2, Some ''A''), (3, Some ''B''), (4, Some ''B''), (5, Some ''B'')] False
   = Inr (4, 4, 2, 0, []) \<and>
   get_accuracy
     [(1::int, Some ''X''), (2, Some ''X''), (3, Some ''X''), (4, Some ''Y''), (5, Some ''Y'')]
     [(1, Some ''A''), (2, Some ''A''), (3, Some ''B''), (4, Some ''B''), (5, Some ''B'')] False
   = Inr ((1 / 2, 1 / 2, 1 / 2, 0), []) \<and>
   scores (get_accuracy
     [(1::int, Some ''X''), (2, Some ''X''), (3, Some ''X''), (4, Some ''Y''), (5, Some ''Y'')]
     [(1, Some ''A''), (2, Some ''A''), (3, Some ''B''), (4, Some ''B''), (5, Some ''B'')] True)
   = Inr (1 / 2, 1 / 2, 1 / 2, 0)"
  by code_simp

subsection \<open>The debug flag\<close>

lemma loop_body_debug:
  "numeric (loop_body gt pl d p (ap, ae, out)) = numeric (loop_body gt pl d' p (ap, ae, out'))"
proof (cases "lookup_ids gt (members pl p)")
  case (Inl e)
  then show ?thesis by (simp add: numeric_def loop_body_def)
next
  case (Inr sub)
  then show ?thesis by (simp add: numeric_def loop_body_def Let_def)
qed

lemma numeric_Inl: "numeric r = numeric (Inl e) \<Longrightarrow> r = Inl e"
  by (cases r) (simp_all add: numeric_def)

lemma numeric_Inr: "numeric r = numeric (Inr (a, b, c)) \<Longrightarrow> \<exists>c'. r = Inr (a, b, c')"
  by (cases r) (auto simp: numeric_def)

lemma accuracy_loop_debug:
  "numeric (accuracy_loop gt pl d ps (ap, ae, out)) = numeric (accuracy_loop gt pl d' ps (ap, ae, out'))"
proof (induction ps arbitrary: ap ae out out')
  case Nil
  then show ?case by (simp add: numeric_def)
next
  case (Cons p ps)
  show ?case
  proof (cases "loop_body gt pl d p (ap, ae, out)")
    case (Inl e)
    with loop_body_debug [of gt pl d' p ap ae out' d out]
    have "loop_body gt pl d' p (ap, ae, out') = Inl e"
      by (simp add: numeric_Inl)
    with Inl show ?thesis by simp
  next
    case (Inr st)
    obtain ap1 ae1 out1 where st: "st = (ap1, ae1, out1)" by (cases st) auto
    with Inr loop_body_debug [of gt pl d' p ap ae out' d out]
    obtain out2 where "loop_body gt pl d' p (ap, ae, out') = Inr (ap1, ae1, out2)"
      using numeric_Inr by metis
    with Inr st Cons.IH [of ap1 ae1 out1 out2] show ?thesis by simp
  qed
qed

lemma get_counts_debug: "counts_of (get_counts gt pl d) = counts_of (get_counts gt pl d')"
proof -
  let ?l = "accuracy_loop gt pl d (map fst (value_counts pl)) (0, 0, [])"
  let ?l' = "accuracy_loop gt pl d' (map fst (value_counts pl)) (0, 0, [])"
  have eq: "numeric ?l = numeric ?l'" by (rule accuracy_loop_debug)
  show ?thesis
  proof (cases ?l)
    case (Inl e)
    with eq [symmetric] have "?l' = Inl e" by (simp add: numeric_Inl)
    with Inl show ?thesis by (simp add: get_counts_def Let_def counts_of_def)
  next
    case (Inr st)
    obtain ap1 ae1 out1 where st: "st = (ap1, ae1, out1)" by (cases st) auto
    with Inr eq [symmetric] obtain out2 where "?l' = Inr (ap1, ae1, out2)"
      using numeric_Inr by metis
    with Inr st show ?thesis by (simp add: get_counts_def Let_def counts_of_def)
  qed
qed

lemma get_accuracy_counts:
  "counts_of r = counts_of r' \<Longrightarrow>
   scores (case r of Inl e \<Rightarrow> Inl e | Inr (rp, pp, ap, ae, out) \<Rightarrow> Inr (F rp pp ap ae, out)) =
   scores (case r' of Inl e \<Rightarrow> Inl e | Inr (rp, pp, ap, ae, out) \<Rightarrow> Inr (F rp pp ap ae, out))"
  by (cases r; cases r') (auto simp: counts_of_def scores_def)

text \<open>
  Claim C8. The four scores that \<open>get_accuracy\<close> returns with \<open>debug\<close> set are the scores
  it returns without: printing the mismatches changes no number. The scores are a
  function of the two series alone, as the function reads nothing else.
\<close>

theorem debug_does_not_change_scores:
  "scores (get_accuracy gt pl debug) = scores (get_accuracy gt pl False)"
  unfolding get_accuracy_def Let_def
  by (rule get_accuracy_counts) (rule get_counts_debug)

theorem debug_does_not_change_scores_witness:
  "get_accuracy [(1::int, Some ''X''), (2, Some ''X''), (3, Some ''Y'')]
     [(1, Some ''A''), (2, Some ''A''), (3, Some ''A'')] True =
   Inr ((1 / 3, 1, 1 / 2, 0), [(''A'', [''X'', ''Y''], 3)]) \<and>
   scores (get_accuracy [(1::int, Some ''X''), (2, Some ''X''), (3, Some ''Y'')]
     [(1, Some ''A''), (2, Some ''A''), (3, Some ''A'')] True) =
   scores (get_accuracy [(1::int, Some ''X''), (2, Some ''X''), (3, Some ''Y'')]
     [(1, Some ''A''), (2, Some ''A''), (3, Some ''A'')] False)"
proof
  show "get_accuracy [(1::int, Some ''X''), (2, Some ''X''), (3, Some ''Y'')]
     [(1, Some ''A''), (2, Some ''A''), (3, Some ''A'')] True =
   Inr ((1 / 3, 1, 1 / 2, 0), [(''A'', [''X'', ''Y''], 3)])"
    by code_simp
  show "scores (get_accuracy [(1::int, Some ''X''), (2, Some ''X''), (3, Some ''Y'')]
     [(1, Some ''A''), (2, Some ''A''), (3, Some ''A'')] True) =
   scores (get_accuracy [(1::int, Some ''X''), (2, Some ''X''), (3, Some ''Y'')]
     [(1, Some ''A''), (2, Some ''A''), (3, Some ''A'')] False)"
    by (rule debug_does_not_change_scores)
qed

subsection \<open>Empty labelings\<close>

lemma get_accuracy_empty: "get_accuracy [] [] debug = Inr ((0, 0, 0, 0), [])"
  by (simp add: get_accuracy_def get_counts_def value_counts_def notnull_values_def unique_def)

subsection \<open>Bounds on the counts\<close>





lemma finite_labels: "finite (labels s)"
  by (simp add: labels_def)

lemma sum_members_length: "(\<Sum>v\<in>labels s. length (members s v)) = length (notnull_values s)"
proof -
  have "(\<Sum>v\<in>labels s. count_list (notnull_values s) v) = length (notnull_values s)"
    unfolding labels_def by (rule sum_count_set) simp_all
  then show ?thesis by (simp add: count_notnull_members)
qed

lemma length_notnull_values: "length (notnull_values s) \<le> length s"
  unfolding notnull_values_def
  by (metis length_filter_le length_map)


lemma pairs_in_class_pairs: "pairs_in gt pl p = class_pairs (sub_series gt pl p)"
  using sum_list_value_counts [of "\<lambda>v c. c choose 2" "sub_series gt pl p"]
  by (simp add: pairs_in_def class_pairs_def comp_def)

lemma exact_events_le: "exact_events gt pl \<le> length pl"
proof -
  have "exact_events gt pl \<le> (\<Sum>p\<in>labels pl. length (members pl p))"
    unfolding exact_events_def by (rule sum_mono) simp
  also have "\<dots> \<le> length pl" by (simp add: sum_members_length length_notnull_values)
  finally show ?thesis .
qed

lemma filter_fst_distinct:
  "distinct (map fst s) \<Longrightarrow> i \<in> set (map fst s) \<Longrightarrow>
   filter (\<lambda>row. fst row = i) s = [(i, the (map_of s i))]"
proof (induction s)
  case Nil
  then show ?case by simp
next
  case (Cons r s)
  show ?case
  proof (cases "fst r = i")
    case True
    then have "i \<notin> set (map fst s)" using Cons.prems(1) by auto
    then have "filter (\<lambda>row. fst row = i) s = []" by (auto simp: filter_empty_conv)
    with True show ?thesis by (cases r) simp
  next
    case False
    with Cons show ?thesis by (cases r) auto
  qed
qed

lemma sub_series_distinct:
  assumes "distinct (index gt)" "set (members pl p) \<subseteq> set (index gt)"
  shows "sub_series gt pl p = map (\<lambda>i. (i, the (map_of gt i))) (members pl p)"
proof -
  have "map (\<lambda>i. filter (\<lambda>row. fst row = i) gt) (members pl p) =
        map (\<lambda>i. [(i, the (map_of gt i))]) (members pl p)"
    using assms by (intro map_cong refl filter_fst_distinct) (auto simp: index_def)
  then show ?thesis
    unfolding sub_series_def by (simp only: concat_map_singleton)
qed




lemma in_members_iff: "i \<in> set (members s v) \<longleftrightarrow> (i, Some v) \<in> set s"
  by (force simp: members_def)

lemma members_disjoint:
  assumes "distinct (index s)" "v \<noteq> w"
  shows "set (members s v) \<inter> set (members s w) = {}"
proof -
  have "False" if "(i, Some v) \<in> set s" "(i, Some w) \<in> set s" for i
    using assms that unfolding index_def by (meson eq_key_imp_eq_value option.inject)
  then show ?thesis by (auto simp: in_members_iff)
qed

lemma label_of_distinct:
  assumes "distinct (index gt)" "i \<in> set (index gt)"
  shows "the (map_of gt i) = Some g \<longleftrightarrow> i \<in> set (members gt g)"
proof -
  from assms(2) obtain v where v: "(i, v) \<in> set gt" by (auto simp: index_def)
  with assms(1) have m: "map_of gt i = Some v" by (simp add: index_def)
  have "v = Some g \<longleftrightarrow> (i, Some g) \<in> set gt"
    using v assms(1) unfolding index_def by (meson eq_key_imp_eq_value)
  with m show ?thesis by (simp add: in_members_iff)
qed

lemma members_map: "members (map (\<lambda>i. (i, f i)) ids) g = filter (\<lambda>i. f i = Some g) ids"
  by (induction ids) (simp_all add: members_def)

lemma members_sub_series:
  assumes "distinct (index gt)" "set (members pl p) \<subseteq> set (index gt)"
  shows "members (sub_series gt pl p) g = filter (\<lambda>i. i \<in> set (members gt g)) (members pl p)"
proof -
  have "filter (\<lambda>i. the (map_of gt i) = Some g) (members pl p) =
        filter (\<lambda>i. i \<in> set (members gt g)) (members pl p)"
    using assms by (intro filter_cong refl label_of_distinct) auto
  then show ?thesis by (simp add: sub_series_distinct [OF assms] members_map)
qed


lemma labels_iff: "v \<in> labels s \<longleftrightarrow> members s v \<noteq> []"
proof -
  have "v \<in> labels s \<longleftrightarrow> count_list (notnull_values s) v \<noteq> 0"
    by (simp add: labels_def count_list_0_iff)
  then show ?thesis by (simp add: count_notnull_members)
qed






lemma same_lines_length:
  assumes "same_lines gt pl"
  shows "length pl = length gt"
proof -
  have "length (index pl) = length (index gt)"
    using assms unfolding same_lines_def by (metis distinct_card)
  then show ?thesis by (simp add: index_def)
qed

subsection \<open>The scores are ratios between 0 and 1\<close>

lemma get_accuracy_of_counts:
  assumes "get_counts gt pl d = Inr (rp, pp, ap, ae, out)"
  shows "get_accuracy gt pl d =
     Inr (((if pp \<noteq> 0 then ap / pp else 0),
           (if rp \<noteq> 0 then ap / rp else 0),
           (if (if pp \<noteq> 0 then ap / pp else 0) + (if rp \<noteq> 0 then ap / rp else 0) \<noteq> 0
            then 2 * (if pp \<noteq> 0 then ap / pp else 0) * (if rp \<noteq> 0 then ap / rp else 0) /
                 ((if pp \<noteq> 0 then ap / pp else 0) + (if rp \<noteq> 0 then ap / rp else 0))
            else 0),
           (if length gt \<noteq> 0 then of_nat ae / of_nat (length gt) else 0)), out)"
  unfolding get_accuracy_def assms Let_def by simp





subsection \<open>Exact matches\<close>

lemma distinct_singleton: "distinct xs \<Longrightarrow> set xs = {g} \<Longrightarrow> xs = [g]"
  by (cases xs) (auto simp: subset_singleton_iff dest: subset_singletonD)

lemma value_counts_single_iff:
  "(\<exists>n. value_counts s = [(g, n)]) \<longleftrightarrow> labels s = {g}"
proof
  assume "\<exists>n. value_counts s = [(g, n)]"
  then obtain n where "value_counts s = [(g, n)]" ..
  then have "set (map fst (value_counts s)) = {g}" by simp
  then show "labels s = {g}" by (simp only: set_fst_value_counts)
next
  assume "labels s = {g}"
  then have "set (map fst (value_counts s)) = {g}" by (simp only: set_fst_value_counts)
  with distinct_value_counts have "map fst (value_counts s) = [g]" by (rule distinct_singleton)
  then show "\<exists>n. value_counts s = [(g, n)]" by (cases "value_counts s") auto
qed

lemma exact_in_iff:
  "exact_in gt pl p \<longleftrightarrow>
   (\<exists>g. labels (sub_series gt pl p) = {g} \<and> length (members pl p) = length (members gt g))"
proof (cases "value_counts (sub_series gt pl p)")
  case Nil
  then have "labels (sub_series gt pl p) = {}"
    using set_fst_value_counts [of "sub_series gt pl p"] by simp
  with Nil show ?thesis by (simp add: exact_in_def)
next
  case (Cons vc rest)
  obtain g n where vc: "vc = (g, n)" by (cases vc)
  show ?thesis
  proof (cases rest)
    case Nil
    with Cons vc have single: "value_counts (sub_series gt pl p) = [(g, n)]" by simp
    then have l: "labels (sub_series gt pl p) = {g}"
      using value_counts_single_iff by fast
    from single l show ?thesis by (auto simp: exact_in_def)
  next
    case (Cons vc' rest')
    with \<open>value_counts (sub_series gt pl p) = vc # rest\<close>
    have two: "value_counts (sub_series gt pl p) = vc # vc' # rest'" by simp
    then have "\<not> (\<exists>g n. value_counts (sub_series gt pl p) = [(g, n)])" by simp
    then have "\<not> (\<exists>g. labels (sub_series gt pl p) = {g})"
      using value_counts_single_iff by fast
    with two vc show ?thesis by (auto simp: exact_in_def)
  qed
qed

lemma map_of_label_iff:
  "distinct (index gt) \<Longrightarrow> map_of gt i = Some (Some g) \<longleftrightarrow> i \<in> set (members gt g)"
  by (simp add: index_def in_members_iff)

lemma labels_sub_series_iff:
  assumes "distinct (index gt)" "set (members pl p) \<subseteq> set (index gt)"
  shows "g \<in> labels (sub_series gt pl p) \<longleftrightarrow>
         (\<exists>i\<in>set (members pl p). i \<in> set (members gt g))"
  by (simp add: labels_iff members_sub_series [OF assms] filter_empty_conv)

lemma aligned_member_labelled:
  assumes "list_all (\<lambda>row. snd row \<noteq> None) gt" "i \<in> set (index gt)"
  shows "\<exists>g. i \<in> set (members gt g)"
proof -
  from assms(2) obtain v where v: "(i, v) \<in> set gt" by (auto simp: index_def)
  with assms(1) have "v \<noteq> None" by (auto simp: list_all_iff)
  then obtain g where "v = Some g" by auto
  with v show ?thesis by (auto simp: in_members_iff)
qed

lemma single_label_iff:
  assumes d: "distinct (index gt)" and n: "list_all (\<lambda>row. snd row \<noteq> None) gt"
    and s: "set (members pl p) \<subseteq> set (index gt)" and ne: "members pl p \<noteq> []"
  shows "labels (sub_series gt pl p) = {g} \<longleftrightarrow>
         list_all (\<lambda>i. map_of gt i = Some (Some g)) (members pl p)"
proof
  assume l: "labels (sub_series gt pl p) = {g}"
  have "i \<in> set (members gt g)" if i: "i \<in> set (members pl p)" for i
  proof -
    from i s have "i \<in> set (index gt)" by auto
    from aligned_member_labelled [OF n this] obtain g' where g': "i \<in> set (members gt g')" ..
    with i have "g' \<in> labels (sub_series gt pl p)"
      using labels_sub_series_iff [OF d s] by blast
    with l have "g' = g" by simp
    with g' show ?thesis by simp
  qed
  then show "list_all (\<lambda>i. map_of gt i = Some (Some g)) (members pl p)"
    by (simp add: list_all_iff map_of_label_iff [OF d])
next
  assume "list_all (\<lambda>i. map_of gt i = Some (Some g)) (members pl p)"
  then have all: "\<forall>i\<in>set (members pl p). i \<in> set (members gt g)"
    by (simp add: list_all_iff map_of_label_iff [OF d])
  show "labels (sub_series gt pl p) = {g}"
  proof (rule set_eqI)
    fix g'
    have "g' \<in> labels (sub_series gt pl p) \<longleftrightarrow> g' = g"
    proof
      assume "g' \<in> labels (sub_series gt pl p)"
      then obtain i where i: "i \<in> set (members pl p)" "i \<in> set (members gt g')"
        using labels_sub_series_iff [OF d s] by blast
      with all have "i \<in> set (members gt g)" by simp
      with i(2) show "g' = g" using members_disjoint [OF d, of g' g] by blast
    next
      assume "g' = g"
      moreover from ne obtain i where "i \<in> set (members pl p)" by (cases "members pl p") auto
      ultimately show "g' \<in> labels (sub_series gt pl p)"
        using all labels_sub_series_iff [OF d s] by blast
    qed
    then show "g' \<in> labels (sub_series gt pl p) \<longleftrightarrow> g' \<in> {g}" by simp
  qed
qed

lemma exact_in_exact_match:
  assumes a: "aligned gt pl" and p: "p \<in> labels pl"
  shows "exact_in gt pl p \<longleftrightarrow> exact_match gt pl p"
proof -
  from a have d: "distinct (index gt)" and n: "list_all (\<lambda>row. snd row \<noteq> None) gt"
    and s: "set (members pl p) \<subseteq> set (index gt)"
    using members_subset_index [of pl p] by (auto simp: aligned_def same_lines_def)
  from p have ne: "members pl p \<noteq> []" by (simp add: labels_iff)
  have in_gt: "g \<in> set (notnull_values gt)"
    if "list_all (\<lambda>i. map_of gt i = Some (Some g)) (members pl p)" for g
  proof -
    from ne obtain i where "i \<in> set (members pl p)" by (cases "members pl p") auto
    with that have "i \<in> set (members gt g)" by (simp add: list_all_iff map_of_label_iff [OF d])
    then have "members gt g \<noteq> []" by auto
    then show ?thesis using labels_iff [of g gt] by (simp add: labels_def)
  qed
  have "exact_in gt pl p \<longleftrightarrow>
        (\<exists>g. list_all (\<lambda>i. map_of gt i = Some (Some g)) (members pl p) \<and>
             length (members pl p) = length (members gt g))"
    by (simp add: exact_in_iff single_label_iff [OF d n s ne])
  also have "\<dots> \<longleftrightarrow> exact_match gt pl p"
    unfolding exact_match_def list_ex_iff using in_gt by blast
  finally show ?thesis .
qed

lemma exact_events_exact_match:
  assumes "aligned gt pl"
  shows "exact_events gt pl = exact_match_events gt pl"
proof -
  have "exact_match_events gt pl =
        (\<Sum>p\<in>set (unique (notnull_values pl)). if exact_match gt pl p then length (members pl p) else 0)"
    unfolding exact_match_events_def
    by (rule sum.distinct_set_conv_list [symmetric]) (rule distinct_unique)
  also have "\<dots> = (\<Sum>p\<in>labels pl. if exact_match gt pl p then length (members pl p) else 0)"
    by (simp add: set_unique labels_def)
  also have "\<dots> = exact_events gt pl"
    unfolding exact_events_def
    by (rule sum.cong) (simp_all add: exact_in_exact_match [OF assms])
  finally show ?thesis by simp
qed

text \<open>
  Claim C3. For aligned labelings, \<open>accurate_events\<close> is the sum of the member counts of
  exactly the predicted classes whose members all carry one single ground truth label
  and whose size is the number of lines that carry this label; so it is at most the
  number of ground truth lines.
\<close>

theorem accurate_events_exact_matches:
  assumes "aligned gt pl"
  shows "\<exists>real_pairs parsed_pairs accurate_pairs accurate_events printed.
           get_counts gt pl debug =
             Inr (real_pairs, parsed_pairs, accurate_pairs, accurate_events, printed) \<and>
           accurate_events = exact_match_events gt pl \<and>
           accurate_events \<le> length gt"
proof -
  from assms have sl: "same_lines gt pl" by (simp add: aligned_def)
  then have s: "set (index pl) \<subseteq> set (index gt)" by (simp add: same_lines_def)
  from get_counts_ok [OF s] obtain out where
    "get_counts gt pl debug =
       Inr (of_nat (class_pairs gt), of_nat (class_pairs pl), of_nat (joint_pairs gt pl),
            exact_events gt pl, out)" by blast
  moreover have "exact_events gt pl = exact_match_events gt pl"
    by (rule exact_events_exact_match [OF assms])
  moreover have "exact_events gt pl \<le> length gt"
    using exact_events_le [of gt pl] same_lines_length [OF sl] by simp
  ultimately show ?thesis by blast
qed

theorem accurate_events_exact_matches_witness:
  "aligned [(1::int, Some ''X''), (2, Some ''X''), (3, Some ''Y''), (4, Some ''Y''), (5, Some ''Z'')]
           [(1, Some ''A''), (2, Some ''A''), (3, Some ''B''), (4, Some ''C''), (5, None)] \<and>
   exact_match_events
           [(1::int, Some ''X''), (2, Some ''X''), (3, Some ''Y''), (4, Some ''Y''), (5, Some ''Z'')]
           [(1, Some ''A''), (2, Some ''A''), (3, Some ''B''), (4, Some ''C''), (5, None)] = 2 \<and>
   (\<exists>real_pairs parsed_pairs accurate_pairs accurate_events printed.
      get_counts
           [(1::int, Some ''X''), (2, Some ''X''), (3, Some ''Y''), (4, Some ''Y''), (5, Some ''Z'')]
           [(1, Some ''A''), (2, Some ''A''), (3, Some ''B''), (4, Some ''C''), (5, None)] False =
        Inr (real_pairs, parsed_pairs, accurate_pairs, accurate_events, printed) \<and>
      accurate_events = 2 \<and> accurate_events \<le> 5)"
proof -
  have h: "aligned [(1::int, Some ''X''), (2, Some ''X''), (3, Some ''Y''), (4, Some ''Y''), (5, Some ''Z'')]
           [(1, Some ''A''), (2, Some ''A''), (3, Some ''B''), (4, Some ''C''), (5, None)]"
    by code_simp
  have e: "exact_match_events
           [(1::int, Some ''X''), (2, Some ''X''), (3, Some ''Y''), (4, Some ''Y''), (5, Some ''Z'')]
           [(1, Some ''A''), (2, Some ''A''), (3, Some ''B''), (4, Some ''C''), (5, None)] = 2"
    by code_simp
  show ?thesis using h e accurate_events_exact_matches [OF h, of False] by simp
qed

subsection \<open>A labeling compared with itself\<close>

lemma notnull_values_all:
  "list_all (\<lambda>row. snd row \<noteq> None) s \<Longrightarrow> length (notnull_values s) = length s"
  by (induction s) (simp_all add: notnull_values_def)

lemma identical_sub_series:
  assumes d: "distinct (index L)" and n: "list_all (\<lambda>row. snd row \<noteq> None) L"
    and p: "p \<in> labels L"
  shows "labels (sub_series L L p) = {p}"
    and "members (sub_series L L p) p = members L p"
proof -
  have s: "set (members L p) \<subseteq> set (index L)" by (rule members_subset_index)
  from p have ne: "members L p \<noteq> []" by (simp add: labels_iff)
  have "list_all (\<lambda>i. map_of L i = Some (Some p)) (members L p)"
    by (simp add: list_all_iff map_of_label_iff [OF d])
  then show "labels (sub_series L L p) = {p}"
    by (simp add: single_label_iff [OF d n s ne])
  show "members (sub_series L L p) p = members L p"
    by (simp add: members_sub_series [OF d s])
qed

lemma identical_counts:
  assumes d: "distinct (index L)" and n: "list_all (\<lambda>row. snd row \<noteq> None) L"
  shows "joint_pairs L L = class_pairs L" and "exact_events L L = length L"
proof -
  have "pairs_in L L p = (length (members L p) choose 2)" if "p \<in> labels L" for p
    using identical_sub_series [OF d n that]
    by (simp add: pairs_in_class_pairs class_pairs_def)
  then show "joint_pairs L L = class_pairs L"
    by (simp add: joint_pairs_def class_pairs_def)
  have "exact_in L L p" if "p \<in> labels L" for p
    using identical_sub_series [OF d n that] by (auto simp: exact_in_iff)
  then have "exact_events L L = (\<Sum>p\<in>labels L. length (members L p))"
    by (simp add: exact_events_def)
  then show "exact_events L L = length L"
    by (simp add: sum_members_length notnull_values_all [OF n])
qed

lemma class_pairs_pos:
  assumes "2 \<le> length (members s v)"
  shows "0 < class_pairs s"
proof -
  from assms have "members s v \<noteq> []" by auto
  then have v: "v \<in> labels s" by (simp add: labels_iff)
  from assms have "0 < (length (members s v) choose 2)" by simp
  then show ?thesis
    unfolding class_pairs_def using v finite_labels [of s]
    by (meson sum_pos2 zero_le)
qed

text \<open>
  Claim C2, as amended. When the predicted labeling is the ground truth labeling (one
  row per line id, no null label) and some label is carried by two lines or more, the
  precision, the recall, the f-measure and the accuracy are all 1.
\<close>

theorem identical_labelings_score_one:
  assumes "aligned L L" "2 \<le> length (members L v)"
  shows "scores (get_accuracy L L debug) = Inr (1, 1, 1, 1)"
proof -
  from assms(1) have d: "distinct (index L)" and n: "list_all (\<lambda>row. snd row \<noteq> None) L"
    by (simp_all add: aligned_def same_lines_def)
  from get_counts_ok [of L L debug] obtain out where
    c: "get_counts L L debug =
          Inr (of_nat (class_pairs L), of_nat (class_pairs L), of_nat (joint_pairs L L),
               exact_events L L, out)" by blast
  have pos: "0 < class_pairs L" by (rule class_pairs_pos [OF assms(2)])
  from assms(2) have "members L v \<noteq> []" by auto
  then have "L \<noteq> []" by (auto simp: members_def)
  with pos show ?thesis
    unfolding get_accuracy_of_counts [OF c] identical_counts [OF d n]
    by (simp add: scores_def)
qed

theorem identical_labelings_score_one_witness:
  "aligned [(1::int, Some ''X''), (2, Some ''X''), (3, Some ''Y'')]
           [(1::int, Some ''X''), (2, Some ''X''), (3, Some ''Y'')] \<and>
   2 \<le> length (members [(1::int, Some ''X''), (2, Some ''X''), (3, Some ''Y'')] ''X'') \<and>
   scores (get_accuracy [(1::int, Some ''X''), (2, Some ''X''), (3, Some ''Y'')]
           [(1::int, Some ''X''), (2, Some ''X''), (3, Some ''Y'')] True) = Inr (1, 1, 1, 1)"
proof -
  have h: "aligned [(1::int, Some ''X''), (2, Some ''X''), (3, Some ''Y'')]
           [(1::int, Some ''X''), (2, Some ''X''), (3, Some ''Y'')]"
    by code_simp
  have m: "2 \<le> length (members [(1::int, Some ''X''), (2, Some ''X''), (3, Some ''Y'')] ''X'')"
    by code_simp
  show ?thesis using h m identical_labelings_score_one [OF h m, of True] by simp
qed

text \<open>
  Claim C2 as stated fails when no label is shared by two lines: there are no pairs,
  and lines 75-77 resolve the three pair ratios to 0. The labeling of one line is the
  smallest case.
\<close>

theorem identical_labelings_counterexample:
  "aligned [(1::int, Some ''E1'')] [(1::int, Some ''E1'')] \<and>
   get_accuracy [(1::int, Some ''E1'')] [(1::int, Some ''E1'')] False = Inr ((0, 0, 0, 1), []) \<and>
   scores (get_accuracy [(1::int, Some ''E1'')] [(1::int, Some ''E1'')] False) \<noteq> Inr (1, 1, 1, 1)"
  by code_simp

text \<open>
  In general, a labeling without null labels in which no two lines share a label scores
  0, 0, 0 and 1 against itself.
\<close>

lemma identical_labelings_without_pairs:
  assumes "aligned L L" "L \<noteq> []" "class_pairs L = 0"
  shows "scores (get_accuracy L L debug) = Inr (0, 0, 0, 1)"
proof -
  from assms(1) have d: "distinct (index L)" and n: "list_all (\<lambda>row. snd row \<noteq> None) L"
    by (simp_all add: aligned_def same_lines_def)
  from get_counts_ok [of L L debug] obtain out where
    c: "get_counts L L debug =
          Inr (of_nat (class_pairs L), of_nat (class_pairs L), of_nat (joint_pairs L L),
               exact_events L L, out)" by blast
  from assms(2,3) show ?thesis
    unfolding get_accuracy_of_counts [OF c] identical_counts [OF d n]
    by (simp add: scores_def)
qed

subsection \<open>Renaming the labels changes no score\<close>


















subsection \<open>The alignment of \<^verbatim>\<open>evaluate\<close>\<close>

lemma zip_mask_filter: "map snd (filter fst (zip (map P xs) xs)) = filter P xs"
  by (induction xs) simp_all

lemma frame_column_event_ids:
  "''EventId'' \<in> set (frame_columns f) \<Longrightarrow> frame_column f ''EventId'' = Inr (event_ids f)"
  by (simp add: frame_column_def event_ids_def)

lemma select_rows_event_ids:
  "frame_rows (select_rows (map (\<lambda>row. snd row \<noteq> None) (event_ids f)) f) =
   filter (\<lambda>row. map_of (snd row) ''EventId'' \<noteq> None) (frame_rows f)"
proof -
  have "map (\<lambda>row. snd row \<noteq> None) (event_ids f) =
        map (\<lambda>row. map_of (snd row) ''EventId'' \<noteq> None) (frame_rows f)"
    by (simp add: event_ids_def)
  then show ?thesis by (simp add: select_rows_def zip_mask_filter)
qed

lemma event_ids_select_rows:
  "event_ids (select_rows (map (\<lambda>row. snd row \<noteq> None) (event_ids f)) f) = dropnull (event_ids f)"
  unfolding event_ids_def [of "select_rows _ _"] select_rows_event_ids
  by (simp add: event_ids_def dropnull_def filter_map comp_def)

lemma index_event_ids: "index (event_ids f) = map fst (frame_rows f)"
  by (simp add: index_def event_ids_def)

lemma set_intersection: "set (intersection idx other) = set idx \<inter> set other"
  by (auto simp: intersection_def set_unique)


lemma lookup_ids_select:
  "set ids \<subseteq> set (map fst s) \<Longrightarrow> lookup_ids s ids = Inr (select_ids s ids)"
  by (auto simp: lookup_ids_def select_ids_def list_all_iff)

lemma select_ids_map:
  "select_ids (map (\<lambda>row. (fst row, g (snd row))) s) ids =
   map (\<lambda>row. (fst row, g (snd row))) (select_ids s ids)"
proof -
  have "filter (\<lambda>row. fst row = i) (map (\<lambda>row. (fst row, g (snd row))) s) =
        map (\<lambda>row. (fst row, g (snd row))) (filter (\<lambda>row. fst row = i) s)" for i
    by (induction s) simp_all
  then show ?thesis
    unfolding select_ids_def by (induction ids) simp_all
qed

lemma loc_ok:
  assumes "set ids \<subseteq> set (map fst (frame_rows f))"
  shows "loc f ids = Inr (f\<lparr>frame_rows := select_ids (frame_rows f) ids\<rparr>)"
  by (simp add: loc_def lookup_ids_select [OF assms])

lemma event_ids_loc:
  "event_ids (f\<lparr>frame_rows := select_ids (frame_rows f) ids\<rparr>) = select_ids (event_ids f) ids"
  using select_ids_map [of "\<lambda>r. map_of r ''EventId''" "frame_rows f" ids]
  by (simp add: event_ids_def)

lemma align_ok:
  assumes g: "''EventId'' \<in> set (frame_columns df_gt)"
    and p: "''EventId'' \<in> set (frame_columns df_pl)"
  shows "align df_gt df_pl =
     Inr (select_ids (dropnull (event_ids df_gt))
            (intersection (index (dropnull (event_ids df_gt))) (index (event_ids df_pl))),
          select_ids (event_ids df_pl)
            (intersection (index (dropnull (event_ids df_gt))) (index (event_ids df_pl))))"
proof -
  define gt1 where "gt1 = select_rows (map (\<lambda>row. snd row \<noteq> None) (event_ids df_gt)) df_gt"
  define common where
    "common = intersection (map fst (frame_rows gt1)) (map fst (frame_rows df_pl))"
  have e1: "event_ids gt1 = dropnull (event_ids df_gt)"
    unfolding gt1_def by (rule event_ids_select_rows)
  have common: "common = intersection (index (dropnull (event_ids df_gt))) (index (event_ids df_pl))"
    unfolding common_def by (simp only: index_event_ids [symmetric] e1)
  have c1: "''EventId'' \<in> set (frame_columns gt1)"
    using g by (simp add: gt1_def select_rows_def)
  have l1: "loc gt1 common = Inr (gt1\<lparr>frame_rows := select_ids (frame_rows gt1) common\<rparr>)"
    by (rule loc_ok) (simp add: common_def set_intersection)
  have l2: "loc df_pl common = Inr (df_pl\<lparr>frame_rows := select_ids (frame_rows df_pl) common\<rparr>)"
    by (rule loc_ok) (simp add: common_def set_intersection)
  have f1: "frame_column (gt1\<lparr>frame_rows := select_ids (frame_rows gt1) common\<rparr>) ''EventId'' =
            Inr (select_ids (event_ids gt1) common)"
    using c1 by (simp add: frame_column_event_ids event_ids_loc)
  have f2: "frame_column (df_pl\<lparr>frame_rows := select_ids (frame_rows df_pl) common\<rparr>) ''EventId'' =
            Inr (select_ids (event_ids df_pl) common)"
    using p by (simp add: frame_column_event_ids event_ids_loc)
  have "align df_gt df_pl = Inr (select_ids (event_ids gt1) common, select_ids (event_ids df_pl) common)"
    unfolding align_def frame_column_event_ids [OF g] Let_def
    by (simp only: gt1_def [symmetric] common_def [symmetric] l1 l2 f1 f2 sum.case)
  then show ?thesis by (simp only: e1 common)
qed

lemma set_select_ids: "set (select_ids s ids) = {row \<in> set s. fst row \<in> set ids}"
  by (auto simp: select_ids_def)

lemma set_index_select_ids: "set (index (select_ids s ids)) = set ids \<inter> set (map fst s)"
  by (auto simp: index_def set_select_ids)


lemma get_accuracy_ok:
  assumes "set (index pl) \<subseteq> set (index gt)"
  shows "\<exists>precision recall f_measure accuracy printed.
           get_accuracy gt pl d = Inr ((precision, recall, f_measure, accuracy), printed)"
proof -
  from get_counts_ok [OF assms] obtain out where
    "get_counts gt pl d =
       Inr (of_nat (class_pairs gt), of_nat (class_pairs pl), of_nat (joint_pairs gt pl),
            exact_events gt pl, out)" by blast
  from get_accuracy_of_counts [OF this] show ?thesis by blast
qed

lemma align_index_subset:
  assumes "align df_gt df_pl = Inr (sg, sp)"
    and "''EventId'' \<in> set (frame_columns df_gt)" "''EventId'' \<in> set (frame_columns df_pl)"
  shows "set (index sp) \<subseteq> set (index sg)"
proof -
  let ?c = "intersection (index (dropnull (event_ids df_gt))) (index (event_ids df_pl))"
  from assms(1) have sg: "sg = select_ids (dropnull (event_ids df_gt)) ?c"
    and sp: "sp = select_ids (event_ids df_pl) ?c"
    unfolding align_ok [OF assms(2,3)] by simp_all
  show ?thesis
    unfolding sg sp set_index_select_ids by (auto simp: set_intersection index_def)
qed

lemma set_index_columns:
  "''EventId'' \<in> set (frame_columns (set_index ''LineId'' df)) \<longleftrightarrow> ''EventId'' \<in> set (columns df)"
  by (simp add: set_index_def)

lemma evaluate_no_line_id:
  "''LineId'' \<notin> set (columns gt) \<or> ''LineId'' \<notin> set (columns pl) \<Longrightarrow>
   evaluate gt pl = Inl ValueError"
  by (auto simp: evaluate_def)

lemma evaluate_no_event_id:
  assumes "''LineId'' \<in> set (columns gt)" "''LineId'' \<in> set (columns pl)"
    and "''EventId'' \<notin> set (columns gt) \<or> ''EventId'' \<notin> set (columns pl)"
  shows "evaluate gt pl = Inl KeyError"
proof (cases "''EventId'' \<in> set (columns gt)")
  case False
  then have "frame_column (set_index ''LineId'' gt) ''EventId'' = Inl KeyError"
    by (simp add: frame_column_def set_index_columns)
  then have "align (set_index ''LineId'' gt) (set_index ''LineId'' pl) = Inl KeyError"
    by (simp add: align_def)
  with assms(1,2) show ?thesis by (simp add: evaluate_def)
next
  case True
  with assms(3) have p: "''EventId'' \<notin> set (columns pl)" by simp
  let ?gt = "set_index ''LineId'' gt" and ?pl = "set_index ''LineId'' pl"
  define gt1 where "gt1 = select_rows (map (\<lambda>row. snd row \<noteq> None) (event_ids ?gt)) ?gt"
  define common where
    "common = intersection (map fst (frame_rows gt1)) (map fst (frame_rows ?pl))"
  have g: "frame_column ?gt ''EventId'' = Inr (event_ids ?gt)"
    using True by (simp add: frame_column_event_ids set_index_columns)
  have c1: "''EventId'' \<in> set (frame_columns gt1)"
    using True by (simp add: gt1_def select_rows_def set_index_columns)
  have l1: "loc gt1 common = Inr (gt1\<lparr>frame_rows := select_ids (frame_rows gt1) common\<rparr>)"
    by (rule loc_ok) (simp add: common_def set_intersection)
  have l2: "loc ?pl common = Inr (?pl\<lparr>frame_rows := select_ids (frame_rows ?pl) common\<rparr>)"
    by (rule loc_ok) (simp add: common_def set_intersection)
  have f1: "frame_column (gt1\<lparr>frame_rows := select_ids (frame_rows gt1) common\<rparr>) ''EventId'' =
            Inr (select_ids (event_ids gt1) common)"
    using c1 by (simp add: frame_column_event_ids event_ids_loc)
  have f2: "frame_column (?pl\<lparr>frame_rows := select_ids (frame_rows ?pl) common\<rparr>) ''EventId'' =
            Inl KeyError"
    using p by (simp add: frame_column_def set_index_columns)
  have "align ?gt ?pl = Inl KeyError"
    unfolding align_def g Let_def
    by (simp only: gt1_def [symmetric] common_def [symmetric] l1 l2 f1 f2 sum.case)
  with assms(1,2) show ?thesis by (simp add: evaluate_def)
qed

lemma evaluate_scores:
  assumes "''LineId'' \<in> set (columns gt)" "''LineId'' \<in> set (columns pl)"
    and "''EventId'' \<in> set (columns gt)" "''EventId'' \<in> set (columns pl)"
  shows "\<exists>sg sp precision recall f_measure accuracy printed.
           align (set_index ''LineId'' gt) (set_index ''LineId'' pl) = Inr (sg, sp) \<and>
           get_accuracy sg sp False = Inr ((precision, recall, f_measure, accuracy), printed) \<and>
           evaluate gt pl = Inr (f_measure, accuracy)"
proof -
  let ?gt = "set_index ''LineId'' gt" and ?pl = "set_index ''LineId'' pl"
  have g: "''EventId'' \<in> set (frame_columns ?gt)" and p: "''EventId'' \<in> set (frame_columns ?pl)"
    using assms(3,4) by (simp_all add: set_index_columns)
  from align_ok [OF g p] obtain sg sp where a: "align ?gt ?pl = Inr (sg, sp)" by blast
  from get_accuracy_ok [OF align_index_subset [OF a g p], of False]
  obtain precision recall f_measure accuracy printed where
    r: "get_accuracy sg sp False = Inr ((precision, recall, f_measure, accuracy), printed)"
    by blast
  have "evaluate gt pl = Inr (f_measure, accuracy)"
    using assms(1,2) by (simp add: evaluate_def a r)
  with a r show ?thesis by blast
qed

subsection \<open>Missing columns and empty intersections\<close>

text \<open>
  Claim C7, as amended. \<open>evaluate\<close> raises \<^verbatim>\<open>ValueError\<close> and produces no scores when the
  \<^verbatim>\<open>LineId\<close> column is absent from either input. When both inputs have it, what happens
  depends on the \<^verbatim>\<open>EventId\<close> column: if either input lacks it, \<open>evaluate\<close> raises
  \<^verbatim>\<open>KeyError\<close>; if both have it, the alignment succeeds, \<open>get_accuracy\<close> returns on the
  aligned series, and \<open>evaluate\<close> returns the f-measure and the accuracy.
\<close>

theorem evaluate_column_checks:
  "(''LineId'' \<notin> set (columns gt) \<or> ''LineId'' \<notin> set (columns pl) \<longrightarrow>
      evaluate gt pl = Inl ValueError) \<and>
   (''LineId'' \<in> set (columns gt) \<and> ''LineId'' \<in> set (columns pl) \<and>
    (''EventId'' \<notin> set (columns gt) \<or> ''EventId'' \<notin> set (columns pl)) \<longrightarrow>
      evaluate gt pl = Inl KeyError) \<and>
   (''LineId'' \<in> set (columns gt) \<and> ''LineId'' \<in> set (columns pl) \<and>
    ''EventId'' \<in> set (columns gt) \<and> ''EventId'' \<in> set (columns pl) \<longrightarrow>
      (\<exists>sg sp precision recall f_measure accuracy printed.
         align (set_index ''LineId'' gt) (set_index ''LineId'' pl) = Inr (sg, sp) \<and>
         get_accuracy sg sp False = Inr ((precision, recall, f_measure, accuracy), printed) \<and>
         evaluate gt pl = Inr (f_measure, accuracy)))"
  using evaluate_no_line_id [of gt pl] evaluate_no_event_id [of gt pl] evaluate_scores [of gt pl]
  by blast

theorem evaluate_column_checks_witness:
  "evaluate example_headless example_parsed = Inl ValueError \<and>
   evaluate example_groundtruth example_headless = Inl ValueError \<and>
   evaluate example_groundtruth example_unlabelled = Inl KeyError \<and>
   (\<exists>sg sp precision recall f_measure accuracy printed.
      align (set_index ''LineId'' example_groundtruth) (set_index ''LineId'' example_parsed) =
        Inr (sg, sp) \<and>
      get_accuracy sg sp False = Inr ((precision, recall, f_measure, accuracy), printed) \<and>
      evaluate example_groundtruth example_parsed = Inr (f_measure, accuracy)) \<and>
   evaluate example_groundtruth example_parsed = Inr (1, 2 / 3)"
proof -
  have c: "''LineId'' \<notin> set (columns example_headless)"
    "''LineId'' \<in> set (columns example_groundtruth)" "''LineId'' \<in> set (columns example_parsed)"
    "''LineId'' \<in> set (columns example_unlabelled)"
    "''EventId'' \<in> set (columns example_groundtruth)" "''EventId'' \<in> set (columns example_parsed)"
    "''EventId'' \<notin> set (columns example_unlabelled)"
    by (simp_all add: example_headless_def example_groundtruth_def example_parsed_def
        example_unlabelled_def)
  have "evaluate example_headless example_parsed = Inl ValueError"
    using evaluate_column_checks [of example_headless example_parsed] c by blast
  moreover have "evaluate example_groundtruth example_headless = Inl ValueError"
    using evaluate_column_checks [of example_groundtruth example_headless] c by blast
  moreover have "evaluate example_groundtruth example_unlabelled = Inl KeyError"
    using evaluate_column_checks [of example_groundtruth example_unlabelled] c by blast
  moreover have "\<exists>sg sp precision recall f_measure accuracy printed.
      align (set_index ''LineId'' example_groundtruth) (set_index ''LineId'' example_parsed) =
        Inr (sg, sp) \<and>
      get_accuracy sg sp False = Inr ((precision, recall, f_measure, accuracy), printed) \<and>
      evaluate example_groundtruth example_parsed = Inr (f_measure, accuracy)"
    using evaluate_column_checks [of example_groundtruth example_parsed] c by blast
  moreover have "evaluate example_groundtruth example_parsed = Inr (1, 2 / 3)"
    by code_simp
  ultimately show ?thesis by blast
qed

text \<open>
  Claim C7 as stated fails for inputs that both have the \<^verbatim>\<open>LineId\<close> column when one of
  them has no \<^verbatim>\<open>EventId\<close> column: line 104 raises \<^verbatim>\<open>KeyError\<close> (line 97 when it is the
  ground truth), and no score is computed.
\<close>

theorem evaluate_column_checks_counterexample:
  "''LineId'' \<in> set (columns example_groundtruth) \<and>
   ''LineId'' \<in> set (columns example_unlabelled) \<and>
   evaluate example_groundtruth example_unlabelled = Inl KeyError"
  by code_simp

lemma intersection_disjoint: "set idx \<inter> set other = {} \<Longrightarrow> intersection idx other = []"
  using set_intersection [of idx other] by simp

text \<open>
  Claim C6. When the ground truth and the parsed result share no line id, the aligned
  series are empty, \<open>get_accuracy\<close> raises nothing on them and returns 0 for the
  precision, the recall, the f-measure and the accuracy, and \<open>evaluate\<close> returns 0 and 0.
\<close>

theorem empty_intersection_scores_zero:
  assumes "''LineId'' \<in> set (columns gt)" "''LineId'' \<in> set (columns pl)"
    and "''EventId'' \<in> set (columns gt)" "''EventId'' \<in> set (columns pl)"
    and "set (map fst (frame_rows (set_index ''LineId'' gt))) \<inter>
         set (map fst (frame_rows (set_index ''LineId'' pl))) = {}"
  shows "align (set_index ''LineId'' gt) (set_index ''LineId'' pl) = Inr ([], []) \<and>
         get_accuracy ([] :: ('c option, 'c) series) ([] :: ('c option, 'c) series) debug =
           Inr ((0, 0, 0, 0), []) \<and>
         evaluate gt pl = Inr (0, 0)"
proof -
  let ?gt = "set_index ''LineId'' gt" and ?pl = "set_index ''LineId'' pl"
  have g: "''EventId'' \<in> set (frame_columns ?gt)" and p: "''EventId'' \<in> set (frame_columns ?pl)"
    using assms(3,4) by (simp_all add: set_index_columns)
  have "set (index (dropnull (event_ids ?gt))) \<subseteq> set (map fst (frame_rows ?gt))"
    by (force simp: index_def dropnull_def event_ids_def)
  with assms(5) have
    "set (index (dropnull (event_ids ?gt))) \<inter> set (index (event_ids ?pl)) = {}"
    by (auto simp: index_event_ids)
  then have "intersection (index (dropnull (event_ids ?gt))) (index (event_ids ?pl)) = []"
    by (rule intersection_disjoint)
  then have a: "align ?gt ?pl = Inr ([], [])"
    by (simp add: align_ok [OF g p] select_ids_def)
  have "evaluate gt pl = Inr (0, 0)"
    using assms(1,2) by (simp add: evaluate_def a get_accuracy_empty)
  with a show ?thesis by (simp add: get_accuracy_empty)
qed

theorem empty_intersection_scores_zero_witness:
  "set (map fst (frame_rows (set_index ''LineId'' example_groundtruth))) \<inter>
   set (map fst (frame_rows (set_index ''LineId'' example_elsewhere))) = {} \<and>
   align (set_index ''LineId'' example_groundtruth) (set_index ''LineId'' example_elsewhere) =
     Inr ([], []) \<and>
   get_accuracy ([] :: (int option, int) series) ([] :: (int option, int) series) True =
     Inr ((0, 0, 0, 0), []) \<and>
   evaluate example_groundtruth example_elsewhere = Inr (0, 0)"
proof -
  have c: "''LineId'' \<in> set (columns example_groundtruth)"
    "''LineId'' \<in> set (columns example_elsewhere)"
    "''EventId'' \<in> set (columns example_groundtruth)"
    "''EventId'' \<in> set (columns example_elsewhere)"
    by (simp_all add: example_groundtruth_def example_elsewhere_def)
  have d: "set (map fst (frame_rows (set_index ''LineId'' example_groundtruth))) \<inter>
     set (map fst (frame_rows (set_index ''LineId'' example_elsewhere))) = {}"
    by (simp add: example_groundtruth_def example_elsewhere_def set_index_def)
  show ?thesis
    using d empty_intersection_scores_zero [OF c d, of True] by simp
qed

subsection \<open>Parsed lines without a label\<close>


























text \<open>
  The comparison above is with the unlabelled lines left out. Against the same line
  carrying a label, a null label can raise the scores: here the third line is parsed
  into the wrong class, and the scores are higher when it has no label at all.
\<close>

lemma nulling_a_label_can_raise_scores:
  "get_accuracy [(1::int, Some ''X''), (2, Some ''X''), (3, Some ''Y'')]
     [(1, Some ''A''), (2, Some ''A''), (3, Some ''A'')] False =
     Inr ((1 / 3, 1, 1 / 2, 0), []) \<and>
   get_accuracy [(1::int, Some ''X''), (2, Some ''X''), (3, Some ''Y'')]
     [(1, Some ''A''), (2, Some ''A''), (3, None)] False =
     Inr ((1, 1, 1, 2 / 3), [])"
  by code_simp

end
